theory Spec2Isabelle
  imports Main "HOL-Library.Sublist"
begin

section \<open>Player management of the REPL server (client/repl/player\_management.go)\<close>

subsection \<open>Values of the Go program\<close>

text \<open>
  A Go \<open>error\<close> is represented by the message its \<open>Error()\<close> method returns; the nil
  error is \<open>None\<close>. A function returning \<open>(T, error)\<close> returns a pair, as in Go, so
  that the value handed back next to a non-nil error stays visible.
\<close>

type_synonym error = string

text \<open>
  A \<open>time.Time\<close> is an instant in nanoseconds since the Unix epoch, a \<open>time.Duration\<close>
  a signed 64-bit count of nanoseconds. \<open>Time.Sub\<close> saturates at the ends of the
  \<open>Duration\<close> range, as the standard library documents.
\<close>

type_synonym Time = int
type_synonym Duration = int

definition Nanosecond :: Duration where
  "Nanosecond = 1"

definition Second :: Duration where
  "Second = 1000000000 * Nanosecond"

definition Millisecond :: Duration where
  "Millisecond = 1000000 * Nanosecond"

definition maxDuration :: Duration where
  "maxDuration = 2 ^ 63 - 1"

definition minDuration :: Duration where
  "minDuration = - (2 ^ 63)"

definition Unix :: "int \<Rightarrow> int \<Rightarrow> Time" where
  "Unix sec nsec = sec * 1000000000 + nsec"

definition Sub :: "Time \<Rightarrow> Time \<Rightarrow> Duration" where
  "Sub t u =
     (let d = t - u
      in if maxDuration < d then maxDuration
         else if d < minDuration then minDuration
         else d)"

text \<open>\<open>strings.HasPrefix(s, prefix)\<close>.\<close>

definition HasPrefix :: "string \<Rightarrow> string \<Rightarrow> bool" where
  "HasPrefix s pre = (length pre \<le> length s \<and> take (length pre) s = pre)"

text \<open>
  Modelled from the spec: the declaration of \<open>system.PlayerState\<close> is not among the
  sources. The spec describes a worker descriptor as a stable identifier (a string) and a
  network endpoint (a port number); the source names the fields \<open>ID\<close> and \<open>Port\<close> and
  gives their zero values (\<open>ID=""\<close>, \<open>Port=0\<close>).
\<close>

record PlayerState =
  ID :: string
  Port :: int

text \<open>\<open>system.PlayerState{}\<close>, the zero value.\<close>

definition zeroPlayerState :: PlayerState where
  "zeroPlayerState = \<lparr>ID = [], Port = 0\<rparr>"

text \<open>
  \<open>emitter.OSCEmitter\<close>: the source builds it from a port only
  (\<open>emitter.OSCEmitter{Port: server.player.Port}\<close>).
\<close>

datatype OSCEmitter = OSCEmitter (EmitterPort: int)

text \<open>\<open>emitter.OSCEmitter{}\<close>, the zero value.\<close>

definition zeroOSCEmitter :: OSCEmitter where
  "zeroOSCEmitter = OSCEmitter 0"

text \<open>
  The \<open>Server\<close> struct is declared in another file; this file reads and writes its
  \<open>player\<close> field only.
\<close>

record Server =
  player :: PlayerState

subsection \<open>Constants\<close>

definition findPlayerTimeout :: Duration where
  "findPlayerTimeout = 20 * Second"

definition playerPoolFillInterval :: Duration where
  "playerPoolFillInterval = 15 * Second"

definition pingTimeout :: Duration where
  "pingTimeout = 5 * Second"

definition pingInterval :: Duration where
  "pingInterval = 1 * Second"

definition failedPingThreshold :: nat where
  "failedPingThreshold = 3"

subsection \<open>The bounded wait\<close>

text \<open>
  Modelled from the spec: \<open>util.Await\<close> is not among the sources. The spec's
  bounded-wait executor returns success, or fails when the timeout elapses; its helper
  \<open>withChannel\<close> waits, bounded by the timeout, until the operation succeeds, and
  tolerates a failure of the first attempt followed by a success of a later retry within
  the timeout window.

  The attempts the wait would make are given as a list, in the order they are made: each
  with the time elapsed since the call when it is made, and what the world outside this
  goroutine presents to the operation at that moment. An attempt is made only while the
  elapsed time is below the timeout. The operation \<open>test\<close> is a Go closure: it returns an
  error or nil, and it may assign to the variables it captures, which are threaded
  through as \<open>v\<close>. \<open>timeoutErr\<close> is the error reported when the timeout elapses with no
  successful attempt.
\<close>

fun Await ::
  "('w \<Rightarrow> 'v \<Rightarrow> error option \<times> 'v) \<Rightarrow> Duration \<Rightarrow> (Duration \<times> 'w) list \<Rightarrow> error \<Rightarrow> 'v
    \<Rightarrow> error option \<times> 'v" where
  "Await test timeoutDuration [] timeoutErr v = (Some timeoutErr, v)"
| "Await test timeoutDuration ((elapsed, w) # later) timeoutErr v =
     (if elapsed < timeoutDuration then
        (case test w v of
           (None, v') \<Rightarrow> (None, v')
         | (Some err, v') \<Rightarrow> Await test timeoutDuration later timeoutErr v')
      else (Some timeoutErr, v))"

subsection \<open>The active-player slot\<close>

text \<open>Lines 86-88.\<close>

definition hasPlayer :: "Server \<Rightarrow> bool" where
  "hasPlayer server = (Port (player server) \<noteq> 0)"

text \<open>Lines 99-101.\<close>

definition unsetPlayer :: "Server \<Rightarrow> Server" where
  "unsetPlayer server = server\<lparr>player := zeroPlayerState\<rparr>"

text \<open>Lines 41-47.\<close>

definition emitter :: "Server \<Rightarrow> OSCEmitter \<times> error option" where
  "emitter server =
     (if \<not> hasPlayer server
      then (zeroOSCEmitter, Some ''no player process is available'')
      else (OSCEmitter (Port (player server)), None))"

subsection \<open>Waiting for a player and sending to it\<close>

text \<open>
  Lines 55-76. The server is shared with the \<open>managePlayers\<close> goroutine, so the slot
  may change between two attempts of the wait: each attempt comes with the change the
  other goroutines made to the server since the previous attempt (the identity when
  nothing interferes). The closure reads the slot as it then is and, on success, assigns
  the emitter to the captured variable \<open>emitter\<close>. \<open>execute\<close> is given by its result for
  an emitter; the third component of the result lists the emitters \<open>execute\<close> was run with.
\<close>

definition withEmitter ::
  "Server \<Rightarrow> (Duration \<times> (Server \<Rightarrow> Server)) list \<Rightarrow> error \<Rightarrow> (OSCEmitter \<Rightarrow> error option)
    \<Rightarrow> error option \<times> Server \<times> OSCEmitter list" where
  "withEmitter server attempts timeoutErr execute =
     (case Await
             (\<lambda>interference (srv, em).
                (case emitter (interference srv) of
                   (oe, Some err) \<Rightarrow> (Some err, (interference srv, em))
                 | (oe, None) \<Rightarrow> (None, (interference srv, oe))))
             findPlayerTimeout attempts timeoutErr (server, zeroOSCEmitter) of
        (Some err, (srv, em)) \<Rightarrow> (Some err, srv, [])
      | (None, (srv, em)) \<Rightarrow> (execute em, srv, [em]))"

text \<open>
  Lines 192-212. \<open>EmitShutdownMessage\<close> is given by its result for an emitter and its
  argument.
\<close>

definition shutdownPlayer ::
  "Server \<Rightarrow> (Duration \<times> (Server \<Rightarrow> Server)) list \<Rightarrow> error \<Rightarrow> (OSCEmitter \<Rightarrow> int \<Rightarrow> error option)
    \<Rightarrow> error option \<times> Server \<times> OSCEmitter list" where
  "shutdownPlayer server attempts timeoutErr EmitShutdownMessage =
     (case withEmitter server attempts timeoutErr (\<lambda>em. EmitShutdownMessage em 0) of
        (Some err, srv, sent) \<Rightarrow> (Some err, srv, sent)
      | (None, srv, sent) \<Rightarrow> (None, unsetPlayer srv, sent))"

subsection \<open>The \<open>managePlayers\<close> loop\<close>

text \<open>The log calls of the loop: level, \<open>Err\<close> field, \<open>player\<close> field, message.\<close>

datatype Level = DebugLevel | InfoLevel | WarnLevel

datatype LogEvent = LogEvent Level "error option" "PlayerState option" string

text \<open>
  What the world outside the loop answers during one iteration: the clock read at line
  121, the result of \<open>system.FillPlayerPool\<close>, the result of \<open>system.FindPlayerByID\<close>
  for each identifier, the results of \<open>system.FindAvailablePlayer\<close> and of
  \<open>EmitPingMessage\<close> at the successive attempts of their waits, and the error a wait
  reports when its timeout elapses.
\<close>

record TickEnv =
  Now :: Time
  FillPlayerPool :: "error option"
  FindPlayerByID :: "string \<Rightarrow> PlayerState \<times> error option"
  FindAvailablePlayer :: "(Duration \<times> (PlayerState \<times> error option)) list"
  EmitPingMessage :: "(Duration \<times> (OSCEmitter \<Rightarrow> error option)) list"
  AwaitTimeout :: error

text \<open>The variables of the loop, the server it manages, and what it has logged.\<close>

record LoopState =
  server :: Server
  playerPoolLastFilled :: Time
  lastPing :: Time
  logged :: "LogEvent list"

text \<open>Lines 20-39.\<close>

definition findAvailablePlayer ::
  "(Duration \<times> (PlayerState \<times> error option)) list \<Rightarrow> error \<Rightarrow> PlayerState \<times> error option" where
  "findAvailablePlayer attempts timeoutErr =
     (case Await
             (\<lambda>found pl.
                (case found of
                   (availablePlayer, Some err) \<Rightarrow> (Some err, pl)
                 | (availablePlayer, None) \<Rightarrow> (None, availablePlayer)))
             findPlayerTimeout attempts timeoutErr zeroPlayerState of
        (Some err, pl) \<Rightarrow> (zeroPlayerState, Some err)
      | (None, pl) \<Rightarrow> (pl, None))"

text \<open>Lines 117-118: the state in which the loop starts.\<close>

definition initialLoopState :: "Server \<Rightarrow> LoopState" where
  "initialLoopState srv =
     \<lparr>server = srv, playerPoolLastFilled = Unix 0 0, lastPing = Unix 0 0, logged = []\<rparr>"

text \<open>Lines 123-132: fill the player pool.\<close>

definition fillStep :: "TickEnv \<Rightarrow> LoopState \<Rightarrow> LoopState" where
  "fillStep env st =
     (if playerPoolFillInterval < Sub (Now env) (playerPoolLastFilled st) then
        (case FillPlayerPool env of
           Some err \<Rightarrow>
             st\<lparr>logged := logged st @ [LogEvent WarnLevel (Some err) None ''Failed to fill player pool.''],
                playerPoolLastFilled := Now env\<rparr>
         | None \<Rightarrow>
             st\<lparr>logged := logged st @ [LogEvent DebugLevel None None ''Filled player pool.''],
                playerPoolLastFilled := Now env\<rparr>)
      else st)"

text \<open>Lines 134-152: refresh the state of the player in use.\<close>

definition refreshStep :: "TickEnv \<Rightarrow> LoopState \<Rightarrow> LoopState" where
  "refreshStep env st =
     (if hasPlayer (server st) then
        (case FindPlayerByID env (ID (player (server st))) of
           (updatedState, None) \<Rightarrow> st\<lparr>server := (server st)\<lparr>player := updatedState\<rparr>\<rparr>
         | (updatedState, Some err) \<Rightarrow>
             if HasPrefix err ''player not found'' then
               st\<lparr>logged := logged st
                    @ [LogEvent WarnLevel None (Some (player (server st))) ''Player process is offline.''],
                  server := unsetPlayer (server st)\<rparr>
             else
               st\<lparr>logged := logged st
                    @ [LogEvent WarnLevel (Some err) None ''Failed to update player state information.'']\<rparr>)
      else st)"

text \<open>Lines 154-162: find a player when there is none.\<close>

definition acquireStep :: "TickEnv \<Rightarrow> LoopState \<Rightarrow> LoopState" where
  "acquireStep env st =
     (if \<not> hasPlayer (server st) then
        (case findAvailablePlayer (FindAvailablePlayer env) (AwaitTimeout env) of
           (pl, Some err) \<Rightarrow>
             st\<lparr>logged := logged st @ [LogEvent WarnLevel (Some err) None ''No player processes available.'']\<rparr>
         | (pl, None) \<Rightarrow>
             st\<lparr>logged := logged st @ [LogEvent InfoLevel None (Some pl) ''Found player process.''],
                server := (server st)\<lparr>player := pl\<rparr>\<rparr>)
      else st)"

text \<open>
  Lines 169-172: the ping, bounded by \<open>pingTimeout\<close>. The closure captures no variable
  that it assigns.
\<close>

definition awaitPing :: "TickEnv \<Rightarrow> OSCEmitter \<Rightarrow> error option" where
  "awaitPing env em =
     fst (Await (\<lambda>send u. (send em, u)) pingTimeout (EmitPingMessage env) (AwaitTimeout env) ())"

text \<open>Lines 164-186: ping the player in use.\<close>

definition pingStep :: "TickEnv \<Rightarrow> LoopState \<Rightarrow> LoopState" where
  "pingStep env st =
     (if hasPlayer (server st) \<and> pingInterval < Sub (Now env) (lastPing st) then
        (case emitter (server st) of
           (em, discarded) \<Rightarrow>
             (case awaitPing env em of
                Some err \<Rightarrow>
                  st\<lparr>logged := logged st
                       @ [LogEvent WarnLevel (Some err) (Some (player (server st))) ''Player process unreachable.''],
                     server := unsetPlayer (server st),
                     lastPing := Now env\<rparr>
              | None \<Rightarrow>
                  st\<lparr>logged := logged st
                       @ [LogEvent DebugLevel None (Some (player (server st))) ''Sent ping to player process.''],
                     lastPing := Now env\<rparr>))
      else st)"

text \<open>Lines 120-189: one iteration of the loop (the sleep at line 188 changes no state).\<close>

definition tick :: "TickEnv \<Rightarrow> LoopState \<Rightarrow> LoopState" where
  "tick env st = pingStep env (acquireStep env (refreshStep env (fillStep env st)))"

text \<open>
  Lines 116-190. The loop, which the source enters in \<open>initialLoopState\<close>, never
  returns; its next iterations, one per element of the list of what the world answers,
  lead from the state \<open>st\<close> to the state computed here.
\<close>

fun managePlayers :: "TickEnv list \<Rightarrow> LoopState \<Rightarrow> LoopState" where
  "managePlayers [] st = st"
| "managePlayers (env # envs) st = managePlayers envs (tick env st)"

subsection \<open>Observations used in the statements\<close>

text \<open>
  The slot values that the successive attempts of a wait with timeout \<open>d\<close> read, should
  every one of them be made: each attempt within the timeout sees the server as the
  other goroutines have left it.
\<close>

fun slotsSeen :: "Duration \<Rightarrow> Server \<Rightarrow> (Duration \<times> (Server \<Rightarrow> Server)) list \<Rightarrow> Server list" where
  "slotsSeen d srv [] = []"
| "slotsSeen d srv ((elapsed, interference) # later) =
     (if elapsed < d then interference srv # slotsSeen d (interference srv) later else [])"

text \<open>The attempts of a wait during which no other goroutine touches the server.\<close>

definition undisturbed :: "Duration list \<Rightarrow> (Duration \<times> (Server \<Rightarrow> Server)) list" where
  "undisturbed ts = map (\<lambda>t. (t, \<lambda>srv. srv)) ts"

text \<open>
  Each call of \<open>system.FillPlayerPool\<close> is followed by one of two log calls, and each
  ping by one of two others: the log tells how often the loop has done either.
\<close>

fun isFillEvent :: "LogEvent \<Rightarrow> bool" where
  "isFillEvent (LogEvent l e pl m) =
     (m = ''Failed to fill player pool.'' \<or> m = ''Filled player pool.'')"

fun isPingEvent :: "LogEvent \<Rightarrow> bool" where
  "isPingEvent (LogEvent l e pl m) =
     (m = ''Player process unreachable.'' \<or> m = ''Sent ping to player process.'')"

subsection \<open>Example inputs\<close>

definition playerP1 :: PlayerState where
  "playerP1 = \<lparr>ID = ''p1'', Port = 27713\<rparr>"

definition playerP2 :: PlayerState where
  "playerP2 = \<lparr>ID = ''p2'', Port = 27714\<rparr>"

text \<open>
  An iteration at time \<open>t\<close> in which the pool fill fails, the registry answers \<open>byID\<close>
  to the refresh, the discovery fails once and then answers \<open>available\<close>, and every
  ping is answered by \<open>ping\<close>.
\<close>

definition exampleEnv ::
  "Time \<Rightarrow> PlayerState \<times> error option \<Rightarrow> PlayerState \<times> error option \<Rightarrow> error option \<Rightarrow> TickEnv" where
  "exampleEnv t byID available ping =
     \<lparr>Now = t, FillPlayerPool = Some ''fill failed'', FindPlayerByID = (\<lambda>i. byID),
      FindAvailablePlayer = [(0, (zeroPlayerState, Some ''no players'')), (100 * Millisecond, available)],
      EmitPingMessage = [(0, \<lambda>em. ping)], AwaitTimeout = ''timed out''\<rparr>"

section \<open>Properties\<close>

subsection \<open>Auxiliary facts\<close>

lemma HasPrefix_iff_prefix: "HasPrefix s pre = prefix pre s"
  by (auto simp: HasPrefix_def prefix_def dest: sym) (metis append_take_drop_id)

lemma hasPlayer_unsetPlayer [simp]: "\<not> hasPlayer (unsetPlayer srv)"
  by (simp add: hasPlayer_def unsetPlayer_def zeroPlayerState_def)

lemma player_unsetPlayer [simp]: "player (unsetPlayer srv) = zeroPlayerState"
  by (simp add: unsetPlayer_def)

lemma fillStep_server [simp]: "server (fillStep env st) = server st"
  by (simp add: fillStep_def split: option.splits)

lemma fillStep_lastPing [simp]: "lastPing (fillStep env st) = lastPing st"
  by (simp add: fillStep_def split: option.splits)

lemma refreshStep_lastPing [simp]: "lastPing (refreshStep env st) = lastPing st"
  by (simp add: refreshStep_def split: option.splits prod.splits)

lemma refreshStep_playerPoolLastFilled [simp]:
  "playerPoolLastFilled (refreshStep env st) = playerPoolLastFilled st"
  by (simp add: refreshStep_def split: option.splits prod.splits)

lemma acquireStep_lastPing [simp]: "lastPing (acquireStep env st) = lastPing st"
  by (simp add: acquireStep_def split: option.splits prod.splits)

lemma acquireStep_playerPoolLastFilled [simp]:
  "playerPoolLastFilled (acquireStep env st) = playerPoolLastFilled st"
  by (simp add: acquireStep_def split: option.splits prod.splits)

lemma pingStep_playerPoolLastFilled [simp]:
  "playerPoolLastFilled (pingStep env st) = playerPoolLastFilled st"
  by (simp add: pingStep_def split: option.splits prod.splits)

subsection \<open>The slot accessors\<close>

text \<open>
  C7. For every slot state, \<open>hasPlayer\<close> is true iff the stored descriptor's \<open>Port\<close> is
  non-zero: the zero-value state (also the one \<open>unsetPlayer\<close> leaves) counts as empty, a
  descriptor with \<open>Port\<close> 0 is empty whatever its \<open>ID\<close>, and a descriptor with a non-zero
  \<open>Port\<close> counts as a bound player whatever its \<open>ID\<close>.
\<close>

theorem hasPlayer_iff_port_nonzero:
  "hasPlayer srv = (Port (player srv) \<noteq> 0)
   \<and> \<not> hasPlayer \<lparr>player = zeroPlayerState\<rparr>
   \<and> \<not> hasPlayer (unsetPlayer srv)
   \<and> \<not> hasPlayer \<lparr>player = \<lparr>ID = i, Port = 0\<rparr>\<rparr>
   \<and> (p \<noteq> 0 \<longrightarrow> hasPlayer \<lparr>player = \<lparr>ID = i, Port = p\<rparr>\<rparr>)"
  by (simp add: hasPlayer_def unsetPlayer_def zeroPlayerState_def)

theorem hasPlayer_iff_port_nonzero_witness:
  "hasPlayer \<lparr>player = \<lparr>ID = ''p1'', Port = 27713\<rparr>\<rparr>
   \<and> \<not> hasPlayer \<lparr>player = \<lparr>ID = ''p1'', Port = 0\<rparr>\<rparr>
   \<and> \<not> hasPlayer (unsetPlayer \<lparr>player = \<lparr>ID = ''p1'', Port = 27713\<rparr>\<rparr>)"
  using hasPlayer_iff_port_nonzero
    [of "\<lparr>player = \<lparr>ID = ''p1'', Port = 27713\<rparr>\<rparr>" "''p1''" 27713]
  by simp

text \<open>
  C8. \<open>emitter\<close> returns an error exactly when \<open>hasPlayer\<close> is false, and the error is
  \<open>no player process is available\<close>; when \<open>hasPlayer\<close> is true it returns, with a nil
  error, an emitter on the bound descriptor's port. So the error that the health check
  discards, right after it has tested \<open>hasPlayer\<close>, is nil.
\<close>

theorem emitter_error_iff_no_player:
  "(snd (emitter srv) \<noteq> None) = (\<not> hasPlayer srv)
   \<and> (\<not> hasPlayer srv \<longrightarrow> snd (emitter srv) = Some ''no player process is available'')
   \<and> (hasPlayer srv \<longrightarrow> emitter srv = (OSCEmitter (Port (player srv)), None))"
  by (simp add: emitter_def)

theorem emitter_error_iff_no_player_witness:
  "hasPlayer \<lparr>player = \<lparr>ID = ''p1'', Port = 27713\<rparr>\<rparr>
   \<and> emitter \<lparr>player = \<lparr>ID = ''p1'', Port = 27713\<rparr>\<rparr> = (OSCEmitter 27713, None)
   \<and> \<not> hasPlayer \<lparr>player = \<lparr>ID = ''p1'', Port = 0\<rparr>\<rparr>
   \<and> snd (emitter \<lparr>player = \<lparr>ID = ''p1'', Port = 0\<rparr>\<rparr>) = Some ''no player process is available''"
  using emitter_error_iff_no_player [of "\<lparr>player = \<lparr>ID = ''p1'', Port = 27713\<rparr>\<rparr>"]
    emitter_error_iff_no_player [of "\<lparr>player = \<lparr>ID = ''p1'', Port = 0\<rparr>\<rparr>"]
  by (simp add: hasPlayer_def)

subsection \<open>The steps of the loop\<close>

text \<open>
  C2. In the refresh step, when the slot is non-empty, the result of
  \<open>FindPlayerByID\<close> for the bound identifier decides the slot three ways: on success the
  slot is overwritten with the refreshed descriptor; on an error whose message starts
  with \<open>player not found\<close> the slot is cleared; on any other error the slot is unchanged.
\<close>

theorem refreshStep_three_way:
  assumes "hasPlayer (server st)"
  shows "(FindPlayerByID env (ID (player (server st))) = (updatedState, None)
            \<longrightarrow> server (refreshStep env st) = (server st)\<lparr>player := updatedState\<rparr>)
       \<and> (FindPlayerByID env (ID (player (server st))) = (updatedState, Some err)
            \<and> prefix ''player not found'' err
            \<longrightarrow> server (refreshStep env st) = unsetPlayer (server st)
                \<and> \<not> hasPlayer (server (refreshStep env st)))
       \<and> (FindPlayerByID env (ID (player (server st))) = (updatedState, Some err)
            \<and> \<not> prefix ''player not found'' err
            \<longrightarrow> server (refreshStep env st) = server st)"
  using assms by (simp add: refreshStep_def HasPrefix_iff_prefix)

theorem refreshStep_three_way_witness:
  "hasPlayer (server (initialLoopState \<lparr>player = playerP1\<rparr>))
   \<and> server (refreshStep (exampleEnv 5 (playerP1\<lparr>Port := 27715\<rparr>, None) (playerP2, None) None)
         (initialLoopState \<lparr>player = playerP1\<rparr>))
       = \<lparr>player = playerP1\<lparr>Port := 27715\<rparr>\<rparr>
   \<and> \<not> hasPlayer (server (refreshStep
         (exampleEnv 5 (zeroPlayerState, Some ''player not found: abc'') (playerP2, None) None)
         (initialLoopState \<lparr>player = playerP1\<rparr>)))
   \<and> server (refreshStep
         (exampleEnv 5 (zeroPlayerState, Some ''connection refused'') (playerP2, None) None)
         (initialLoopState \<lparr>player = playerP1\<rparr>)) = \<lparr>player = playerP1\<rparr>"
proof -
  have h: "hasPlayer (server (initialLoopState \<lparr>player = playerP1\<rparr>))"
    by (simp add: initialLoopState_def hasPlayer_def playerP1_def)
  show ?thesis
    using h
      refreshStep_three_way [OF h,
        of "exampleEnv 5 (playerP1\<lparr>Port := 27715\<rparr>, None) (playerP2, None) None"
           "playerP1\<lparr>Port := 27715\<rparr>" "[]"]
      refreshStep_three_way [OF h,
        of "exampleEnv 5 (zeroPlayerState, Some ''player not found: abc'') (playerP2, None) None"
           zeroPlayerState "''player not found: abc''"]
      refreshStep_three_way [OF h,
        of "exampleEnv 5 (zeroPlayerState, Some ''connection refused'') (playerP2, None) None"
           zeroPlayerState "''connection refused''"]
    by (simp add: exampleEnv_def initialLoopState_def)
qed

text \<open>
  C1. In every iteration in which the slot is non-empty when the health check is
  reached and more than \<open>pingInterval\<close> has elapsed since the last ping, a ping that
  fails (an error of the wait bounded by \<open>pingTimeout\<close>, its timeout included) leaves
  the slot cleared at the end of the iteration. This holds from every state of the loop:
  the state keeps no count of failures, so one failure, fewer than
  \<open>failedPingThreshold\<close>, evicts the player.
\<close>

theorem ping_failure_evicts:
  assumes "hasPlayer (server (acquireStep env (refreshStep env (fillStep env st))))"
    and "pingInterval < Sub (Now env) (lastPing st)"
    and "awaitPing env (OSCEmitter (Port (player (server
           (acquireStep env (refreshStep env (fillStep env st))))))) = Some err"
  shows "\<not> hasPlayer (server (tick env st))
       \<and> player (server (tick env st)) = zeroPlayerState
       \<and> 1 < failedPingThreshold"
  using assms by (simp add: tick_def pingStep_def emitter_def failedPingThreshold_def)

theorem ping_failure_evicts_witness:
  "hasPlayer (server
      (acquireStep (exampleEnv (Unix 1700000000 0) (playerP1, None) (playerP1, None) (Some ''connection refused''))
        (refreshStep (exampleEnv (Unix 1700000000 0) (playerP1, None) (playerP1, None) (Some ''connection refused''))
          (fillStep (exampleEnv (Unix 1700000000 0) (playerP1, None) (playerP1, None) (Some ''connection refused''))
            (initialLoopState \<lparr>player = zeroPlayerState\<rparr>)))))
   \<and> \<not> hasPlayer (server
      (tick (exampleEnv (Unix 1700000000 0) (playerP1, None) (playerP1, None) (Some ''connection refused''))
        (initialLoopState \<lparr>player = zeroPlayerState\<rparr>)))"
proof -
  let ?env = "exampleEnv (Unix 1700000000 0) (playerP1, None) (playerP1, None) (Some ''connection refused'')"
  let ?st = "initialLoopState \<lparr>player = zeroPlayerState\<rparr>"
  have acq: "server (acquireStep ?env (refreshStep ?env (fillStep ?env ?st))) = \<lparr>player = playerP1\<rparr>"
    by (simp add: acquireStep_def refreshStep_def initialLoopState_def hasPlayer_def
        zeroPlayerState_def findAvailablePlayer_def exampleEnv_def findPlayerTimeout_def
        Second_def Millisecond_def Nanosecond_def)
  have h1: "hasPlayer (server (acquireStep ?env (refreshStep ?env (fillStep ?env ?st))))"
    unfolding acq by (simp add: hasPlayer_def playerP1_def)
  have h2: "pingInterval < Sub (Now ?env) (lastPing ?st)"
    by (simp add: exampleEnv_def initialLoopState_def Sub_def Unix_def pingInterval_def
        Second_def Nanosecond_def maxDuration_def minDuration_def)
  have h3: "awaitPing ?env (OSCEmitter (Port (player (server
        (acquireStep ?env (refreshStep ?env (fillStep ?env ?st))))))) = Some ''timed out''"
    unfolding acq
    by (simp add: awaitPing_def exampleEnv_def pingTimeout_def Second_def Nanosecond_def)
  show ?thesis
    using h1 ping_failure_evicts [OF h1 h2 h3] by simp
qed

subsection \<open>Waiting for a player\<close>

lemma Await_emitter:
  "Await (\<lambda>interference (srv, em).
            (case emitter (interference srv) of
               (oe, Some err) \<Rightarrow> (Some err, (interference srv, em))
             | (oe, None) \<Rightarrow> (None, (interference srv, oe))))
         d attempts timeoutErr (srv, em)
   = (case find hasPlayer (slotsSeen d srv attempts) of
        Some s \<Rightarrow> (None, (s, OSCEmitter (Port (player s))))
      | None \<Rightarrow> (Some timeoutErr, (last (srv # slotsSeen d srv attempts), em)))"
proof (induction attempts arbitrary: srv)
  case Nil
  then show ?case by simp
next
  case (Cons a attempts)
  obtain t f where a: "a = (t, f)" by (cases a)
  show ?case
  proof (cases "t < d")
    case False
    then show ?thesis by (simp add: a)
  next
    case True
    show ?thesis
    proof (cases "hasPlayer (f srv)")
      case True
      with \<open>t < d\<close> show ?thesis by (simp add: a emitter_def)
    next
      case False
      with \<open>t < d\<close> Cons.IH [of "f srv"] show ?thesis
        by (simp add: a emitter_def split: option.splits)
    qed
  qed
qed


lemma withEmitter_eq:
  "withEmitter srv attempts timeoutErr execute
   = (case find hasPlayer (slotsSeen findPlayerTimeout srv attempts) of
        Some s \<Rightarrow> (execute (OSCEmitter (Port (player s))), s, [OSCEmitter (Port (player s))])
      | None \<Rightarrow> (Some timeoutErr, last (srv # slotsSeen findPlayerTimeout srv attempts), []))"
  unfolding withEmitter_def Await_emitter
  by (cases "find hasPlayer (slotsSeen findPlayerTimeout srv attempts)") simp_all


lemma shutdownPlayer_eq:
  "shutdownPlayer srv attempts timeoutErr send
   = (case find hasPlayer (slotsSeen findPlayerTimeout srv attempts) of
        Some s \<Rightarrow>
          (case send (OSCEmitter (Port (player s))) 0 of
             Some err \<Rightarrow> (Some err, s, [OSCEmitter (Port (player s))])
           | None \<Rightarrow> (None, unsetPlayer s, [OSCEmitter (Port (player s))]))
      | None \<Rightarrow> (Some timeoutErr, last (srv # slotsSeen findPlayerTimeout srv attempts), []))"
proof (cases "find hasPlayer (slotsSeen findPlayerTimeout srv attempts)")
  case None
  then show ?thesis by (simp add: shutdownPlayer_def withEmitter_eq)
next
  case (Some s)
  then show ?thesis
    by (cases "send (OSCEmitter (Port (player s))) 0") (simp_all add: shutdownPlayer_def withEmitter_eq)
qed

lemma find_hasPlayer_Some: "find hasPlayer xs = Some s \<Longrightarrow> hasPlayer s"
  by (induction xs) (simp_all split: if_splits)

lemma find_Some_mem: "find P xs = Some s \<Longrightarrow> s \<in> set xs"
  by (induction xs) (simp_all split: if_splits)

lemma find_None_last:
  "find hasPlayer xs = None \<Longrightarrow> \<not> hasPlayer srv \<Longrightarrow> \<not> hasPlayer (last (srv # xs))"
proof -
  assume none: "find hasPlayer xs = None" and empty: "\<not> hasPlayer srv"
  have "last (srv # xs) \<in> set (srv # xs)"
    by (rule last_in_set) simp
  moreover from none have "\<forall>x \<in> set xs. \<not> hasPlayer x"
    by (simp add: find_None_iff)
  ultimately show ?thesis
    using empty by (cases "last (srv # xs) = srv") simp_all
qed

lemma slotsSeen_undisturbed:
  "slotsSeen d srv (undisturbed ts) = replicate (length (takeWhile (\<lambda>t. t < d) ts)) srv"
  by (induction ts) (simp_all add: undisturbed_def)


lemma find_replicate_None: "\<not> P x \<Longrightarrow> find P (replicate n x) = None"
  by (induction n) simp_all

lemma last_replicate_same: "last (x # replicate n x) = x"
  by (induction n) simp_all

lemma shutdownPlayer_undisturbed_empty:
  assumes "\<not> hasPlayer srv"
  shows "shutdownPlayer srv (undisturbed ts) timeoutErr send = (Some timeoutErr, srv, [])"
  using assms
  by (simp add: shutdownPlayer_eq slotsSeen_undisturbed find_replicate_None last_replicate_same)

lemma shutdownPlayer_undisturbed_bound:
  assumes "hasPlayer srv" and "t < findPlayerTimeout"
  shows "shutdownPlayer srv (undisturbed (t # ts)) timeoutErr send
     = (case send (OSCEmitter (Port (player srv))) 0 of
          Some err \<Rightarrow> (Some err, srv, [OSCEmitter (Port (player srv))])
        | None \<Rightarrow> (None, unsetPlayer srv, [OSCEmitter (Port (player srv))]))"
  using assms by (simp add: shutdownPlayer_eq slotsSeen_undisturbed)

text \<open>
  C5. \<open>withEmitter\<close> retries obtaining an emitter while less than \<open>findPlayerTimeout\<close>
  has elapsed. If the slot holds a player at some attempt within the timeout, also when
  it held none at the call and one was bound later, \<open>execute\<close> is run once, with an
  emitter on the port of the player seen by the first such attempt, and \<open>withEmitter\<close>
  returns the result of \<open>execute\<close>. If the slot is empty at every attempt within the
  timeout, \<open>withEmitter\<close> returns the error of the wait and \<open>execute\<close> is not run.
\<close>

theorem withEmitter_waits_for_player:
  "((\<exists>s \<in> set (slotsSeen findPlayerTimeout srv attempts). hasPlayer s)
      \<longrightarrow> (\<exists>s. find hasPlayer (slotsSeen findPlayerTimeout srv attempts) = Some s
             \<and> hasPlayer s
             \<and> withEmitter srv attempts timeoutErr execute
                = (execute (OSCEmitter (Port (player s))), s, [OSCEmitter (Port (player s))])))
   \<and> ((\<forall>s \<in> set (slotsSeen findPlayerTimeout srv attempts). \<not> hasPlayer s)
      \<longrightarrow> withEmitter srv attempts timeoutErr execute
          = (Some timeoutErr, last (srv # slotsSeen findPlayerTimeout srv attempts), []))"
proof (cases "find hasPlayer (slotsSeen findPlayerTimeout srv attempts)")
  case None
  then have "\<forall>s \<in> set (slotsSeen findPlayerTimeout srv attempts). \<not> hasPlayer s"
    by (simp add: find_None_iff)
  with None show ?thesis by (simp add: withEmitter_eq)
next
  case (Some s)
  then have "hasPlayer s" and "s \<in> set (slotsSeen findPlayerTimeout srv attempts)"
    by (simp_all add: find_hasPlayer_Some find_Some_mem)
  with Some show ?thesis by (auto simp: withEmitter_eq)
qed

theorem withEmitter_waits_for_player_witness:
  "slotsSeen findPlayerTimeout \<lparr>player = zeroPlayerState\<rparr>
        [(0, \<lambda>srv. srv), (100 * Millisecond, \<lambda>srv. srv),
         (200 * Millisecond, \<lambda>srv. srv\<lparr>player := playerP1\<rparr>),
         (300 * Millisecond, \<lambda>srv. srv\<lparr>player := playerP2\<rparr>)]
      = [\<lparr>player = zeroPlayerState\<rparr>, \<lparr>player = zeroPlayerState\<rparr>,
         \<lparr>player = playerP1\<rparr>, \<lparr>player = playerP2\<rparr>]
   \<and> hasPlayer \<lparr>player = playerP1\<rparr>
   \<and> withEmitter \<lparr>player = zeroPlayerState\<rparr>
        [(0, \<lambda>srv. srv), (100 * Millisecond, \<lambda>srv. srv),
         (200 * Millisecond, \<lambda>srv. srv\<lparr>player := playerP1\<rparr>),
         (300 * Millisecond, \<lambda>srv. srv\<lparr>player := playerP2\<rparr>)]
        ''timed out'' (\<lambda>em. Some ''sent'')
      = (Some ''sent'', \<lparr>player = playerP1\<rparr>, [OSCEmitter 27713])
   \<and> slotsSeen findPlayerTimeout \<lparr>player = zeroPlayerState\<rparr>
        [(0, \<lambda>srv. srv), (19 * Second, \<lambda>srv. srv),
         (20 * Second, \<lambda>srv. srv\<lparr>player := playerP1\<rparr>)]
      = [\<lparr>player = zeroPlayerState\<rparr>, \<lparr>player = zeroPlayerState\<rparr>]
   \<and> \<not> hasPlayer \<lparr>player = zeroPlayerState\<rparr>
   \<and> withEmitter \<lparr>player = zeroPlayerState\<rparr>
        [(0, \<lambda>srv. srv), (19 * Second, \<lambda>srv. srv),
         (20 * Second, \<lambda>srv. srv\<lparr>player := playerP1\<rparr>)]
        ''timed out'' (\<lambda>em. Some ''sent'')
      = (Some ''timed out'', \<lparr>player = zeroPlayerState\<rparr>, [])"
  using
    withEmitter_waits_for_player [of "\<lparr>player = zeroPlayerState\<rparr>"
        "[(0, \<lambda>srv. srv), (100 * Millisecond, \<lambda>srv. srv),
          (200 * Millisecond, \<lambda>srv. srv\<lparr>player := playerP1\<rparr>),
          (300 * Millisecond, \<lambda>srv. srv\<lparr>player := playerP2\<rparr>)]"
        "''timed out''" "\<lambda>em. Some ''sent''"]
    withEmitter_waits_for_player [of "\<lparr>player = zeroPlayerState\<rparr>"
        "[(0, \<lambda>srv. srv), (19 * Second, \<lambda>srv. srv),
          (20 * Second, \<lambda>srv. srv\<lparr>player := playerP1\<rparr>)]"
        "''timed out''" "\<lambda>em. Some ''sent''"]
  by (simp add: findPlayerTimeout_def Second_def Millisecond_def Nanosecond_def hasPlayer_def
      zeroPlayerState_def playerP1_def playerP2_def)


subsection \<open>Shutting the player down\<close>

text \<open>
  C3, as stated, fails: with the player \<open>p1\<close> bound, the emitter is obtained at the first
  attempt and the shutdown message is sent; the send reports an error, and the slot still
  holds \<open>p1\<close> when \<open>shutdownPlayer\<close> returns.
\<close>

theorem shutdownPlayer_send_error_counterexample:
  "snd (snd (shutdownPlayer \<lparr>player = playerP1\<rparr> (undisturbed [0]) ''timed out''
        (\<lambda>em flags. Some ''connection refused''))) = [OSCEmitter 27713]
   \<and> hasPlayer (fst (snd (shutdownPlayer \<lparr>player = playerP1\<rparr> (undisturbed [0]) ''timed out''
        (\<lambda>em flags. Some ''connection refused''))))"
  by (simp add: shutdownPlayer_eq undisturbed_def findPlayerTimeout_def Second_def Nanosecond_def
      hasPlayer_def playerP1_def)

text \<open>
  C3, amended. Whenever \<open>shutdownPlayer\<close> obtains an emitter and sends the shutdown
  message, it returns the result of the send; when the send reported success the slot is
  empty on return, and when the send reported an error the slot is not cleared: it holds
  the player the message was sent to.
\<close>

theorem shutdownPlayer_clears_after_successful_send:
  assumes "shutdownPlayer srv attempts timeoutErr send = (r, srv', sent)"
    and "sent \<noteq> []"
  shows "\<exists>em. sent = [em] \<and> r = send em 0
           \<and> (r = None \<longrightarrow> \<not> hasPlayer srv' \<and> player srv' = zeroPlayerState)
           \<and> (r \<noteq> None \<longrightarrow> hasPlayer srv' \<and> Port (player srv') = EmitterPort em)"
proof (cases "find hasPlayer (slotsSeen findPlayerTimeout srv attempts)")
  case None
  with assms show ?thesis by (simp add: shutdownPlayer_eq)
next
  case found: (Some s)
  then have bound: "hasPlayer s" by (rule find_hasPlayer_Some)
  show ?thesis
  proof (cases "send (OSCEmitter (Port (player s))) 0")
    case None
    with found assms(1)
    have "r = None" and "srv' = unsetPlayer s" and "sent = [OSCEmitter (Port (player s))]"
      by (auto simp: shutdownPlayer_eq)
    with None show ?thesis by simp
  next
    case (Some e)
    with found assms(1)
    have "r = Some e" and "srv' = s" and "sent = [OSCEmitter (Port (player s))]"
      by (auto simp: shutdownPlayer_eq)
    with Some bound show ?thesis by simp
  qed
qed

theorem shutdownPlayer_clears_after_successful_send_witness:
  "shutdownPlayer \<lparr>player = playerP1\<rparr> (undisturbed [0]) ''timed out'' (\<lambda>em flags. None)
     = (None, \<lparr>player = zeroPlayerState\<rparr>, [OSCEmitter 27713])
   \<and> [OSCEmitter 27713] \<noteq> []
   \<and> \<not> hasPlayer \<lparr>player = zeroPlayerState\<rparr>"
proof -
  have h: "shutdownPlayer \<lparr>player = playerP1\<rparr> (undisturbed [0]) ''timed out'' (\<lambda>em flags. None)
     = (None, \<lparr>player = zeroPlayerState\<rparr>, [OSCEmitter 27713])"
    by (simp add: shutdownPlayer_eq undisturbed_def findPlayerTimeout_def Second_def Nanosecond_def
        hasPlayer_def playerP1_def unsetPlayer_def)
  have ne: "[OSCEmitter 27713] \<noteq> []" by simp
  show ?thesis
    using h ne shutdownPlayer_clears_after_successful_send [OF h ne] by simp
qed

text \<open>
  C4. When \<open>shutdownPlayer\<close> returns success, \<open>hasPlayer\<close> is false on return. When no
  player is bound at the call nor at any attempt within \<open>findPlayerTimeout\<close>,
  \<open>shutdownPlayer\<close> returns the error of the wait, sends nothing, and \<open>hasPlayer\<close> is
  false on return; with no other goroutine writing the slot, the slot is as it was.
\<close>

theorem shutdownPlayer_postcondition:
  "(fst (shutdownPlayer srv attempts timeoutErr send) = None
      \<longrightarrow> \<not> hasPlayer (fst (snd (shutdownPlayer srv attempts timeoutErr send))))
   \<and> (\<not> hasPlayer srv \<and> (\<forall>s \<in> set (slotsSeen findPlayerTimeout srv attempts). \<not> hasPlayer s)
      \<longrightarrow> fst (shutdownPlayer srv attempts timeoutErr send) = Some timeoutErr
        \<and> snd (snd (shutdownPlayer srv attempts timeoutErr send)) = []
        \<and> \<not> hasPlayer (fst (snd (shutdownPlayer srv attempts timeoutErr send))))
   \<and> (\<not> hasPlayer srv
      \<longrightarrow> shutdownPlayer srv (undisturbed ts) timeoutErr send = (Some timeoutErr, srv, []))"
proof -
  have success: "fst (shutdownPlayer srv attempts timeoutErr send) = None
      \<longrightarrow> \<not> hasPlayer (fst (snd (shutdownPlayer srv attempts timeoutErr send)))"
  proof (cases "find hasPlayer (slotsSeen findPlayerTimeout srv attempts)")
    case None
    then show ?thesis by (simp add: shutdownPlayer_eq)
  next
    case (Some s)
    then show ?thesis
      by (cases "send (OSCEmitter (Port (player s))) 0") (simp_all add: shutdownPlayer_eq)
  qed
  have unavailable: "\<not> hasPlayer srv
        \<and> (\<forall>s \<in> set (slotsSeen findPlayerTimeout srv attempts). \<not> hasPlayer s)
      \<longrightarrow> fst (shutdownPlayer srv attempts timeoutErr send) = Some timeoutErr
        \<and> snd (snd (shutdownPlayer srv attempts timeoutErr send)) = []
        \<and> \<not> hasPlayer (fst (snd (shutdownPlayer srv attempts timeoutErr send)))"
  proof (cases "find hasPlayer (slotsSeen findPlayerTimeout srv attempts)")
    case None
    then have "\<not> hasPlayer srv
        \<Longrightarrow> \<not> hasPlayer (last (srv # slotsSeen findPlayerTimeout srv attempts))"
      by (rule find_None_last)
    with None show ?thesis by (simp add: shutdownPlayer_eq)
  next
    case (Some s)
    then have "hasPlayer s" and "s \<in> set (slotsSeen findPlayerTimeout srv attempts)"
      by (simp_all add: find_hasPlayer_Some find_Some_mem)
    then show ?thesis by blast
  qed
  have sequential: "\<not> hasPlayer srv
      \<longrightarrow> shutdownPlayer srv (undisturbed ts) timeoutErr send = (Some timeoutErr, srv, [])"
    by (simp add: shutdownPlayer_undisturbed_empty)
  from success unavailable sequential show ?thesis by (intro conjI)
qed

theorem shutdownPlayer_postcondition_witness:
  "fst (shutdownPlayer \<lparr>player = playerP1\<rparr> (undisturbed [0]) ''timed out'' (\<lambda>em flags. None)) = None
   \<and> \<not> hasPlayer (fst (snd (shutdownPlayer \<lparr>player = playerP1\<rparr> (undisturbed [0]) ''timed out''
        (\<lambda>em flags. None))))
   \<and> \<not> hasPlayer \<lparr>player = zeroPlayerState\<rparr>
   \<and> slotsSeen findPlayerTimeout \<lparr>player = zeroPlayerState\<rparr>
         (undisturbed [0, 10 * Second, 20 * Second])
      = [\<lparr>player = zeroPlayerState\<rparr>, \<lparr>player = zeroPlayerState\<rparr>]
   \<and> shutdownPlayer \<lparr>player = zeroPlayerState\<rparr> (undisturbed [0, 10 * Second, 20 * Second])
        ''timed out'' (\<lambda>em flags. None)
      = (Some ''timed out'', \<lparr>player = zeroPlayerState\<rparr>, [])"
  using
    shutdownPlayer_postcondition [of "\<lparr>player = playerP1\<rparr>" "undisturbed [0]" "''timed out''"
      "\<lambda>em flags. None" "[0]"]
    shutdownPlayer_postcondition [of "\<lparr>player = zeroPlayerState\<rparr>"
      "undisturbed [0, 10 * Second, 20 * Second]" "''timed out''" "\<lambda>em flags. None"
      "[0, 10 * Second, 20 * Second]"]
  by (simp add: shutdownPlayer_eq undisturbed_def findPlayerTimeout_def Second_def Nanosecond_def
      hasPlayer_def playerP1_def zeroPlayerState_def unsetPlayer_def)

text \<open>
  C10. If a player is bound and the send of the shutdown message returns an error,
  \<open>shutdownPlayer\<close> returns that error and leaves the slot as it was: the player remains
  bound. \<open>shutdownPlayer\<close> changes the slot only when it returns success, and then by
  clearing it.
\<close>

theorem shutdownPlayer_send_error_keeps_player:
  "(hasPlayer srv \<and> t < findPlayerTimeout \<and> send (OSCEmitter (Port (player srv))) 0 = Some err
      \<longrightarrow> shutdownPlayer srv (undisturbed (t # ts)) timeoutErr send
          = (Some err, srv, [OSCEmitter (Port (player srv))])
        \<and> hasPlayer (fst (snd (shutdownPlayer srv (undisturbed (t # ts)) timeoutErr send))))
   \<and> (fst (snd (shutdownPlayer srv (undisturbed ts') timeoutErr send)) \<noteq> srv
      \<longrightarrow> fst (shutdownPlayer srv (undisturbed ts') timeoutErr send) = None
        \<and> fst (snd (shutdownPlayer srv (undisturbed ts') timeoutErr send)) = unsetPlayer srv)"
proof -
  have first: "hasPlayer srv \<and> t < findPlayerTimeout \<and> send (OSCEmitter (Port (player srv))) 0 = Some err
      \<longrightarrow> shutdownPlayer srv (undisturbed (t # ts)) timeoutErr send
          = (Some err, srv, [OSCEmitter (Port (player srv))])"
    by (simp add: shutdownPlayer_undisturbed_bound)
  have second: "fst (snd (shutdownPlayer srv (undisturbed ts') timeoutErr send)) \<noteq> srv
      \<longrightarrow> fst (shutdownPlayer srv (undisturbed ts') timeoutErr send) = None
        \<and> fst (snd (shutdownPlayer srv (undisturbed ts') timeoutErr send)) = unsetPlayer srv"
  proof (cases "find hasPlayer (replicate (length (takeWhile (\<lambda>t. t < findPlayerTimeout) ts')) srv)")
    case None
    then show ?thesis
      by (simp add: shutdownPlayer_eq slotsSeen_undisturbed last_replicate_same)
  next
    case (Some s)
    then have "s = srv"
      by (auto dest: find_Some_mem)
    with Some show ?thesis
      by (cases "send (OSCEmitter (Port (player srv))) 0")
        (simp_all add: shutdownPlayer_eq slotsSeen_undisturbed)
  qed
  from first second show ?thesis by simp
qed

theorem shutdownPlayer_send_error_keeps_player_witness:
  "hasPlayer \<lparr>player = playerP1\<rparr> \<and> (0::int) < findPlayerTimeout
   \<and> shutdownPlayer \<lparr>player = playerP1\<rparr> (undisturbed [0, 100 * Millisecond]) ''timed out''
        (\<lambda>em flags. Some ''connection refused'')
      = (Some ''connection refused'', \<lparr>player = playerP1\<rparr>, [OSCEmitter 27713])
   \<and> fst (snd (shutdownPlayer \<lparr>player = playerP1\<rparr> (undisturbed [0]) ''timed out'' (\<lambda>em flags. None)))
      \<noteq> \<lparr>player = playerP1\<rparr>
   \<and> fst (shutdownPlayer \<lparr>player = playerP1\<rparr> (undisturbed [0]) ''timed out'' (\<lambda>em flags. None)) = None"
  using
    shutdownPlayer_send_error_keeps_player [of "\<lparr>player = playerP1\<rparr>" 0
      "\<lambda>em flags. Some ''connection refused''" "''connection refused''" "[100 * Millisecond]"
      "''timed out''" "[]"]
    shutdownPlayer_send_error_keeps_player [of "\<lparr>player = playerP1\<rparr>" 0
      "\<lambda>em flags. None" "''x''" "[]" "''timed out''" "[0]"]
  by (simp add: shutdownPlayer_eq undisturbed_def findPlayerTimeout_def Second_def Nanosecond_def
      hasPlayer_def playerP1_def unsetPlayer_def zeroPlayerState_def)

subsection \<open>Acquisition and the health check of the same iteration\<close>

lemma acquireStep_empty_found:
  assumes "\<not> hasPlayer (server st)"
    and "findAvailablePlayer (FindAvailablePlayer env) (AwaitTimeout env) = (pl, None)"
  shows "server (acquireStep env st) = (server st)\<lparr>player := pl\<rparr>"
  using assms by (simp add: acquireStep_def)

lemma acquireStep_empty_failed:
  assumes "\<not> hasPlayer (server st)"
    and "findAvailablePlayer (FindAvailablePlayer env) (AwaitTimeout env) = (pl, Some err)"
  shows "server (acquireStep env st) = server st"
  using assms by (simp add: acquireStep_def)

lemma pingStep_server:
  "server (pingStep env st) =
     (if hasPlayer (server st) \<and> pingInterval < Sub (Now env) (lastPing st)
         \<and> awaitPing env (OSCEmitter (Port (player (server st)))) \<noteq> None
      then unsetPlayer (server st) else server st)"
  by (cases "awaitPing env (OSCEmitter (Port (player (server st))))")
    (simp_all add: pingStep_def emitter_def)

text \<open>
  C6, amended. If the slot is empty when the acquisition step runs, also when the refresh
  step of the same iteration has just cleared it, a successful \<open>findAvailablePlayer\<close>
  binds the descriptor it returns: after the acquisition step the slot holds exactly that
  descriptor. The iteration ends with that descriptor in the slot, and \<open>hasPlayer\<close> true
  when its port is non-zero, unless the health check of the same iteration pings it and
  the ping fails: then the iteration ends with the slot empty. When
  \<open>findAvailablePlayer\<close> fails, the slot is left empty.
\<close>

theorem acquisition_binds_discovered_player:
  assumes "\<not> hasPlayer (server (refreshStep env (fillStep env st)))"
  shows "(findAvailablePlayer (FindAvailablePlayer env) (AwaitTimeout env) = (pl, None)
           \<longrightarrow> player (server (acquireStep env (refreshStep env (fillStep env st)))) = pl
             \<and> player (server (tick env st))
                 = (if Port pl \<noteq> 0 \<and> pingInterval < Sub (Now env) (lastPing st)
                       \<and> awaitPing env (OSCEmitter (Port pl)) \<noteq> None
                    then zeroPlayerState else pl)
             \<and> hasPlayer (server (tick env st))
                 = (Port pl \<noteq> 0
                    \<and> \<not> (pingInterval < Sub (Now env) (lastPing st)
                           \<and> awaitPing env (OSCEmitter (Port pl)) \<noteq> None)))
       \<and> (findAvailablePlayer (FindAvailablePlayer env) (AwaitTimeout env) = (pl, Some err)
           \<longrightarrow> server (tick env st) = server (refreshStep env (fillStep env st))
             \<and> \<not> hasPlayer (server (tick env st)))"
proof -
  let ?s2 = "refreshStep env (fillStep env st)"
  have found: "findAvailablePlayer (FindAvailablePlayer env) (AwaitTimeout env) = (pl, None)
      \<Longrightarrow> server (acquireStep env ?s2) = (server ?s2)\<lparr>player := pl\<rparr>"
    using assms by (rule acquireStep_empty_found)
  have failed: "findAvailablePlayer (FindAvailablePlayer env) (AwaitTimeout env) = (pl, Some err)
      \<Longrightarrow> server (acquireStep env ?s2) = server ?s2"
    using assms by (rule acquireStep_empty_failed)
  show ?thesis
    using assms found failed
    by (auto simp: tick_def pingStep_server hasPlayer_def zeroPlayerState_def)
qed


lemmas duration_defs =
  findPlayerTimeout_def playerPoolFillInterval_def pingTimeout_def pingInterval_def
  Second_def Millisecond_def Nanosecond_def maxDuration_def minDuration_def Unix_def Sub_def

text \<open>
  C6, as stated, fails: \<open>p1\<close> is bound, the refresh reports it not found and clears the
  slot, the discovery returns \<open>p2\<close>, which is bound; more than \<open>pingInterval\<close> has passed
  since the last ping, the ping to \<open>p2\<close> fails, and the iteration ends with an empty slot.
\<close>

theorem acquired_player_evicted_same_tick_counterexample:
  "\<not> hasPlayer (server
       (refreshStep
         (exampleEnv (Unix 1700000000 0) (zeroPlayerState, Some ''player not found: p1'')
           (playerP2, None) (Some ''connection refused''))
         (fillStep
           (exampleEnv (Unix 1700000000 0) (zeroPlayerState, Some ''player not found: p1'')
             (playerP2, None) (Some ''connection refused''))
           (initialLoopState \<lparr>player = playerP1\<rparr>))))
   \<and> findAvailablePlayer
        (FindAvailablePlayer
          (exampleEnv (Unix 1700000000 0) (zeroPlayerState, Some ''player not found: p1'')
            (playerP2, None) (Some ''connection refused'')))
        (AwaitTimeout
          (exampleEnv (Unix 1700000000 0) (zeroPlayerState, Some ''player not found: p1'')
            (playerP2, None) (Some ''connection refused'')))
      = (playerP2, None)
   \<and> \<not> hasPlayer (server
       (tick
         (exampleEnv (Unix 1700000000 0) (zeroPlayerState, Some ''player not found: p1'')
           (playerP2, None) (Some ''connection refused''))
         (initialLoopState \<lparr>player = playerP1\<rparr>)))"
proof -
  let ?env = "exampleEnv (Unix 1700000000 0) (zeroPlayerState, Some ''player not found: p1'')
           (playerP2, None) (Some ''connection refused'')"
  let ?st = "initialLoopState \<lparr>player = playerP1\<rparr>"
  have refreshed: "server (refreshStep ?env (fillStep ?env ?st)) = \<lparr>player = zeroPlayerState\<rparr>"
    by (simp add: refreshStep_def initialLoopState_def hasPlayer_def playerP1_def exampleEnv_def
        HasPrefix_def unsetPlayer_def)
  have discovered: "findAvailablePlayer (FindAvailablePlayer ?env) (AwaitTimeout ?env) = (playerP2, None)"
    by (simp add: findAvailablePlayer_def exampleEnv_def duration_defs)
  have empty: "\<not> hasPlayer \<lparr>player = zeroPlayerState\<rparr>"
    by (simp add: hasPlayer_def zeroPlayerState_def)
  have acquired: "server (acquireStep ?env (refreshStep ?env (fillStep ?env ?st))) = \<lparr>player = playerP2\<rparr>"
    using empty discovered by (simp add: acquireStep_empty_found refreshed)
  have gate: "pingInterval < Sub (Now ?env) (lastPing ?st)"
    by (simp add: exampleEnv_def initialLoopState_def duration_defs)
  have ping: "awaitPing ?env (OSCEmitter (Port playerP2)) = Some ''timed out''"
    by (simp add: awaitPing_def exampleEnv_def duration_defs)
  have "\<not> hasPlayer (server (tick ?env ?st))"
    using gate ping by (simp add: tick_def pingStep_server acquired)
  with refreshed empty discovered show ?thesis by simp
qed


theorem acquisition_binds_discovered_player_witness:
  "\<not> hasPlayer (server
       (refreshStep
         (exampleEnv (Unix 1700000000 0) (zeroPlayerState, Some ''player not found: p1'')
           (playerP2, None) None)
         (fillStep
           (exampleEnv (Unix 1700000000 0) (zeroPlayerState, Some ''player not found: p1'')
             (playerP2, None) None)
           (initialLoopState \<lparr>player = playerP1\<rparr>))))
   \<and> player (server
       (tick
         (exampleEnv (Unix 1700000000 0) (zeroPlayerState, Some ''player not found: p1'')
           (playerP2, None) None)
         (initialLoopState \<lparr>player = playerP1\<rparr>))) = playerP2
   \<and> hasPlayer (server
       (tick
         (exampleEnv (Unix 1700000000 0) (zeroPlayerState, Some ''player not found: p1'')
           (playerP2, None) None)
         (initialLoopState \<lparr>player = playerP1\<rparr>)))"
proof -
  let ?env = "exampleEnv (Unix 1700000000 0) (zeroPlayerState, Some ''player not found: p1'')
           (playerP2, None) None"
  let ?st = "initialLoopState \<lparr>player = playerP1\<rparr>"
  have refreshed: "server (refreshStep ?env (fillStep ?env ?st)) = \<lparr>player = zeroPlayerState\<rparr>"
    by (simp add: refreshStep_def initialLoopState_def hasPlayer_def playerP1_def exampleEnv_def
        HasPrefix_def unsetPlayer_def)
  have empty: "\<not> hasPlayer (server (refreshStep ?env (fillStep ?env ?st)))"
    unfolding refreshed by (simp add: hasPlayer_def zeroPlayerState_def)
  have discovered: "findAvailablePlayer (FindAvailablePlayer ?env) (AwaitTimeout ?env) = (playerP2, None)"
    by (simp add: findAvailablePlayer_def exampleEnv_def duration_defs)
  have ping: "awaitPing ?env (OSCEmitter (Port playerP2)) = None"
    by (simp add: awaitPing_def exampleEnv_def duration_defs)
  have port: "Port playerP2 \<noteq> 0"
    by (simp add: playerP2_def)
  show ?thesis
    using empty discovered ping port
      acquisition_binds_discovered_player [OF empty, of playerP2 "[]"]
    by simp
qed

subsection \<open>The two timestamps\<close>

lemma fillStep_closed:
  "\<not> playerPoolFillInterval < Sub (Now env) (playerPoolLastFilled st) \<Longrightarrow> fillStep env st = st"
  by (simp add: fillStep_def)

lemma fillStep_open:
  "playerPoolFillInterval < Sub (Now env) (playerPoolLastFilled st)
    \<Longrightarrow> playerPoolLastFilled (fillStep env st) = Now env"
  by (simp add: fillStep_def split: option.splits)

lemma pingStep_closed:
  "\<not> pingInterval < Sub (Now env) (lastPing st) \<Longrightarrow> pingStep env st = st"
  by (simp add: pingStep_def)

lemma pingStep_open:
  "hasPlayer (server st) \<Longrightarrow> pingInterval < Sub (Now env) (lastPing st)
    \<Longrightarrow> lastPing (pingStep env st) = Now env"
  by (simp add: pingStep_def split: option.splits prod.splits)

lemma refreshStep_fill_events [simp]:
  "filter isFillEvent (logged (refreshStep env st)) = filter isFillEvent (logged st)"
  by (simp add: refreshStep_def split: option.splits prod.splits)

lemma acquireStep_fill_events [simp]:
  "filter isFillEvent (logged (acquireStep env st)) = filter isFillEvent (logged st)"
  by (simp add: acquireStep_def split: option.splits prod.splits)

lemma pingStep_fill_events [simp]:
  "filter isFillEvent (logged (pingStep env st)) = filter isFillEvent (logged st)"
  by (simp add: pingStep_def split: option.splits prod.splits)

lemma fillStep_ping_events [simp]:
  "filter isPingEvent (logged (fillStep env st)) = filter isPingEvent (logged st)"
  by (simp add: fillStep_def split: option.splits)

lemma refreshStep_ping_events [simp]:
  "filter isPingEvent (logged (refreshStep env st)) = filter isPingEvent (logged st)"
  by (simp add: refreshStep_def split: option.splits prod.splits)

lemma acquireStep_ping_events [simp]:
  "filter isPingEvent (logged (acquireStep env st)) = filter isPingEvent (logged st)"
  by (simp add: acquireStep_def split: option.splits prod.splits)

lemma tick_fill_closed:
  assumes "\<not> playerPoolFillInterval < Sub (Now env) (playerPoolLastFilled st)"
  shows "playerPoolLastFilled (tick env st) = playerPoolLastFilled st"
    and "filter isFillEvent (logged (tick env st)) = filter isFillEvent (logged st)"
  using assms by (simp_all add: tick_def fillStep_closed)

lemma tick_ping_closed:
  assumes "\<not> pingInterval < Sub (Now env) (lastPing st)"
  shows "lastPing (tick env st) = lastPing st"
    and "filter isPingEvent (logged (tick env st)) = filter isPingEvent (logged st)"
  using assms by (simp_all add: tick_def pingStep_closed)

lemma managePlayers_fill_closed:
  assumes "\<forall>e \<in> set envs. Sub (Now e) (playerPoolLastFilled st) \<le> playerPoolFillInterval"
  shows "playerPoolLastFilled (managePlayers envs st) = playerPoolLastFilled st
       \<and> filter isFillEvent (logged (managePlayers envs st)) = filter isFillEvent (logged st)"
  using assms
proof (induction envs arbitrary: st)
  case Nil
  then show ?case by simp
next
  case (Cons e envs)
  from Cons.prems have closed: "\<not> playerPoolFillInterval < Sub (Now e) (playerPoolLastFilled st)"
    by simp
  have same: "playerPoolLastFilled (tick e st) = playerPoolLastFilled st"
    using closed by (rule tick_fill_closed)
  have events: "filter isFillEvent (logged (tick e st)) = filter isFillEvent (logged st)"
    using closed by (rule tick_fill_closed)
  from Cons.prems same
  have "\<forall>e' \<in> set envs. Sub (Now e') (playerPoolLastFilled (tick e st)) \<le> playerPoolFillInterval"
    by simp
  from Cons.IH [OF this] same events show ?case by simp
qed

lemma managePlayers_ping_closed:
  assumes "\<forall>e \<in> set envs. Sub (Now e) (lastPing st) \<le> pingInterval"
  shows "lastPing (managePlayers envs st) = lastPing st
       \<and> filter isPingEvent (logged (managePlayers envs st)) = filter isPingEvent (logged st)"
  using assms
proof (induction envs arbitrary: st)
  case Nil
  then show ?case by simp
next
  case (Cons e envs)
  from Cons.prems have closed: "\<not> pingInterval < Sub (Now e) (lastPing st)"
    by simp
  have same: "lastPing (tick e st) = lastPing st"
    using closed by (rule tick_ping_closed)
  have events: "filter isPingEvent (logged (tick e st)) = filter isPingEvent (logged st)"
    using closed by (rule tick_ping_closed)
  from Cons.prems same
  have "\<forall>e' \<in> set envs. Sub (Now e') (lastPing (tick e st)) \<le> pingInterval"
    by simp
  from Cons.IH [OF this] same events show ?case by simp
qed

lemma tick_fill_open:
  assumes "playerPoolFillInterval < Sub (Now env) (playerPoolLastFilled st)"
  shows "playerPoolLastFilled (tick env st) = Now env"
  using assms by (simp add: tick_def fillStep_open)

lemma tick_ping_open:
  assumes "hasPlayer (server (acquireStep env (refreshStep env (fillStep env st))))"
    and "pingInterval < Sub (Now env) (lastPing st)"
  shows "lastPing (tick env st) = Now env"
  using assms by (simp add: tick_def pingStep_open)

text \<open>
  C9. Both timestamps advance on the attempt, whatever its outcome. An iteration that
  calls \<open>FillPlayerPool\<close> sets \<open>playerPoolLastFilled\<close> to the time read at its start,
  also when the call fails; in the iterations that follow, as long as their start is not
  more than \<open>playerPoolFillInterval\<close> after that time, the timestamp stays and the pool is
  not filled again. An iteration that pings sets \<open>lastPing\<close> to the time read at its
  start, also when the ping fails and the slot is cleared; in the iterations that follow,
  as long as their start is not more than \<open>pingInterval\<close> after that time, the timestamp
  stays and no ping is sent, whatever player is acquired in them.
\<close>

theorem timestamps_advance_on_attempt:
  "(playerPoolFillInterval < Sub (Now env) (playerPoolLastFilled st)
      \<longrightarrow> playerPoolLastFilled (tick env st) = Now env
        \<and> ((\<forall>e \<in> set envs. Sub (Now e) (Now env) \<le> playerPoolFillInterval)
            \<longrightarrow> playerPoolLastFilled (managePlayers envs (tick env st)) = Now env
              \<and> filter isFillEvent (logged (managePlayers envs (tick env st)))
                  = filter isFillEvent (logged (tick env st))))
   \<and> (hasPlayer (server (acquireStep env (refreshStep env (fillStep env st))))
        \<and> pingInterval < Sub (Now env) (lastPing st)
      \<longrightarrow> lastPing (tick env st) = Now env
        \<and> ((\<forall>e \<in> set envs. Sub (Now e) (Now env) \<le> pingInterval)
            \<longrightarrow> lastPing (managePlayers envs (tick env st)) = Now env
              \<and> filter isPingEvent (logged (managePlayers envs (tick env st)))
                  = filter isPingEvent (logged (tick env st))))"
proof -
  have fill: "playerPoolLastFilled (managePlayers envs (tick env st)) = Now env
      \<and> filter isFillEvent (logged (managePlayers envs (tick env st)))
          = filter isFillEvent (logged (tick env st))"
    if "playerPoolFillInterval < Sub (Now env) (playerPoolLastFilled st)"
      and "\<forall>e \<in> set envs. Sub (Now e) (Now env) \<le> playerPoolFillInterval"
  proof -
    from that(1) have now: "playerPoolLastFilled (tick env st) = Now env"
      by (rule tick_fill_open)
    with that(2)
    have "\<forall>e \<in> set envs. Sub (Now e) (playerPoolLastFilled (tick env st)) \<le> playerPoolFillInterval"
      by simp
    from managePlayers_fill_closed [OF this] now show ?thesis by simp
  qed
  have ping: "lastPing (managePlayers envs (tick env st)) = Now env
      \<and> filter isPingEvent (logged (managePlayers envs (tick env st)))
          = filter isPingEvent (logged (tick env st))"
    if "hasPlayer (server (acquireStep env (refreshStep env (fillStep env st))))"
      and "pingInterval < Sub (Now env) (lastPing st)"
      and "\<forall>e \<in> set envs. Sub (Now e) (Now env) \<le> pingInterval"
  proof -
    from that(1,2) have now: "lastPing (tick env st) = Now env"
      by (rule tick_ping_open)
    with that(3)
    have "\<forall>e \<in> set envs. Sub (Now e) (lastPing (tick env st)) \<le> pingInterval"
      by simp
    from managePlayers_ping_closed [OF this] now show ?thesis by simp
  qed
  show ?thesis
    using fill ping by (simp add: tick_fill_open tick_ping_open)
qed


lemmas step_defs =
  tick_def fillStep_def refreshStep_def acquireStep_def pingStep_def awaitPing_def
  findAvailablePlayer_def emitter_def hasPlayer_def unsetPlayer_def HasPrefix_def
  initialLoopState_def exampleEnv_def zeroPlayerState_def zeroOSCEmitter_def
  playerP1_def playerP2_def

theorem timestamps_advance_on_attempt_witness:
  "playerPoolFillInterval
      < Sub (Now (exampleEnv (Unix 1700000000 0) (playerP1, None) (playerP1, None) (Some ''connection refused'')))
          (playerPoolLastFilled (initialLoopState \<lparr>player = zeroPlayerState\<rparr>))
   \<and> FillPlayerPool (exampleEnv (Unix 1700000000 0) (playerP1, None) (playerP1, None) (Some ''connection refused''))
      = Some ''fill failed''
   \<and> tick (exampleEnv (Unix 1700000000 0) (playerP1, None) (playerP1, None) (Some ''connection refused''))
        (initialLoopState \<lparr>player = zeroPlayerState\<rparr>)
      = \<lparr>server = \<lparr>player = zeroPlayerState\<rparr>,
         playerPoolLastFilled = Unix 1700000000 0,
         lastPing = Unix 1700000000 0,
         logged =
           [LogEvent WarnLevel (Some ''fill failed'') None ''Failed to fill player pool.'',
            LogEvent InfoLevel None (Some playerP1) ''Found player process.'',
            LogEvent WarnLevel (Some ''timed out'') (Some playerP1) ''Player process unreachable.'']\<rparr>
   \<and> Sub (Now (exampleEnv (Unix 1700000000 500000000) (playerP2, None) (playerP2, None) None))
         (Now (exampleEnv (Unix 1700000000 0) (playerP1, None) (playerP1, None) (Some ''connection refused'')))
       \<le> pingInterval
   \<and> managePlayers [exampleEnv (Unix 1700000000 500000000) (playerP2, None) (playerP2, None) None]
        (tick (exampleEnv (Unix 1700000000 0) (playerP1, None) (playerP1, None) (Some ''connection refused''))
          (initialLoopState \<lparr>player = zeroPlayerState\<rparr>))
      = \<lparr>server = \<lparr>player = playerP2\<rparr>,
         playerPoolLastFilled = Unix 1700000000 0,
         lastPing = Unix 1700000000 0,
         logged =
           [LogEvent WarnLevel (Some ''fill failed'') None ''Failed to fill player pool.'',
            LogEvent InfoLevel None (Some playerP1) ''Found player process.'',
            LogEvent WarnLevel (Some ''timed out'') (Some playerP1) ''Player process unreachable.'',
            LogEvent InfoLevel None (Some playerP2) ''Found player process.'']\<rparr>"
proof -
  let ?env = "exampleEnv (Unix 1700000000 0) (playerP1, None) (playerP1, None) (Some ''connection refused'')"
  let ?later = "exampleEnv (Unix 1700000000 500000000) (playerP2, None) (playerP2, None) None"
  let ?st = "initialLoopState \<lparr>player = zeroPlayerState\<rparr>"
  have fillGate: "playerPoolFillInterval < Sub (Now ?env) (playerPoolLastFilled ?st)"
    by (simp add: exampleEnv_def initialLoopState_def duration_defs)
  have pingGate: "pingInterval < Sub (Now ?env) (lastPing ?st)"
    by (simp add: exampleEnv_def initialLoopState_def duration_defs)
  have acquired: "hasPlayer (server (acquireStep ?env (refreshStep ?env (fillStep ?env ?st))))"
    by (simp add: step_defs duration_defs)
  have soon: "\<forall>e \<in> set [?later]. Sub (Now e) (Now ?env) \<le> pingInterval"
    by (simp add: exampleEnv_def duration_defs)
  have soon': "\<forall>e \<in> set [?later]. Sub (Now e) (Now ?env) \<le> playerPoolFillInterval"
    by (simp add: exampleEnv_def duration_defs)
  have first: "tick ?env ?st
      = \<lparr>server = \<lparr>player = zeroPlayerState\<rparr>,
         playerPoolLastFilled = Unix 1700000000 0,
         lastPing = Unix 1700000000 0,
         logged =
           [LogEvent WarnLevel (Some ''fill failed'') None ''Failed to fill player pool.'',
            LogEvent InfoLevel None (Some playerP1) ''Found player process.'',
            LogEvent WarnLevel (Some ''timed out'') (Some playerP1) ''Player process unreachable.'']\<rparr>"
    by (simp add: step_defs duration_defs)
  have second: "managePlayers [?later] (tick ?env ?st)
      = \<lparr>server = \<lparr>player = playerP2\<rparr>,
         playerPoolLastFilled = Unix 1700000000 0,
         lastPing = Unix 1700000000 0,
         logged =
           [LogEvent WarnLevel (Some ''fill failed'') None ''Failed to fill player pool.'',
            LogEvent InfoLevel None (Some playerP1) ''Found player process.'',
            LogEvent WarnLevel (Some ''timed out'') (Some playerP1) ''Player process unreachable.'',
            LogEvent InfoLevel None (Some playerP2) ''Found player process.'']\<rparr>"
    unfolding first by (simp add: step_defs duration_defs)
  have filled: "FillPlayerPool ?env = Some ''fill failed''"
    by (simp add: exampleEnv_def)
  show ?thesis
    using fillGate pingGate acquired soon soon' filled first second
      timestamps_advance_on_attempt [of ?env ?st "[?later]"]
    by simp
qed

end
